theory Spec2Isabelle
  imports Main "HOL-Library.Word"
begin

unbundle bit_operations_syntax

section \<open>The button driver (MicroBitButton.h, MicroBitButton.cpp)\<close>

subsection \<open>Constants and data\<close>

text \<open>
  The events a button raises (MicroBitButton.h, lines 44-49). The source builds a
  \<^verbatim>\<open>MicroBitEvent evt(id, value)\<close> for its side effect of being fired; every event of
  one button carries the same \<^verbatim>\<open>id\<close>, so an emitted event is recorded here by its value.
\<close>

datatype event =
    MICROBIT_BUTTON_EVT_DOWN
  | MICROBIT_BUTTON_EVT_UP
  | MICROBIT_BUTTON_EVT_CLICK
  | MICROBIT_BUTTON_EVT_LONG_CLICK
  | MICROBIT_BUTTON_EVT_HOLD
  | MICROBIT_BUTTON_EVT_DOUBLE_CLICK

datatype MicroBitButtonEventConfiguration =
    MICROBIT_BUTTON_SIMPLE_EVENTS
  | MICROBIT_BUTTON_ALL_EVENTS

text \<open>
  Times are \<^verbatim>\<open>unsigned long\<close>, the declared type of \<^verbatim>\<open>downStartTime\<close>: 32 bits on the
  driver's target, with a subtraction that wraps around.
\<close>

type_synonym time = "32 word"

definition MICROBIT_BUTTON_LONG_CLICK_TIME :: time where
  "MICROBIT_BUTTON_LONG_CLICK_TIME = 1000"

definition MICROBIT_BUTTON_HOLD_TIME :: time where
  "MICROBIT_BUTTON_HOLD_TIME = 1500"

definition MICROBIT_BUTTON_STATE :: "8 word" where
  "MICROBIT_BUTTON_STATE = 1"

definition MICROBIT_BUTTON_STATE_HOLD_TRIGGERED :: "8 word" where
  "MICROBIT_BUTTON_STATE_HOLD_TRIGGERED = 2"

definition MICROBIT_BUTTON_SIGMA_MIN :: "8 word" where
  "MICROBIT_BUTTON_SIGMA_MIN = 0"

definition MICROBIT_BUTTON_SIGMA_MAX :: "8 word" where
  "MICROBIT_BUTTON_SIGMA_MAX = 12"

definition MICROBIT_BUTTON_SIGMA_THRESH_HI :: "8 word" where
  "MICROBIT_BUTTON_SIGMA_THRESH_HI = 8"

definition MICROBIT_BUTTON_SIGMA_THRESH_LO :: "8 word" where
  "MICROBIT_BUTTON_SIGMA_THRESH_LO = 2"

text \<open>
  The fields of the class that \<^verbatim>\<open>systemTick\<close> reads or writes. \<^verbatim>\<open>sigma\<close> is a
  \<^verbatim>\<open>uint8_t\<close>; \<^verbatim>\<open>status\<close> is the flag byte inherited from MicroBitComponent, of which
  bit 0 is "pressed" and bit 1 is "hold triggered". The pin, its name and the event id
  are left out: the pin's reading and the clock's are inputs of a tick.
\<close>

record MicroBitButton =
  status :: "8 word"
  downStartTime :: time
  sigma :: "8 word"
  eventConfiguration :: MicroBitButtonEventConfiguration

subsection \<open>Constructor and accessors\<close>

text \<open>
  Modelled from the spec: the initial value of \<^verbatim>\<open>status\<close> is set by the constructor of
  the base class MicroBitComponent, which is not among the sources; the spec starts a
  button with pressed = false and holdTriggered = false, that is \<^verbatim>\<open>status = 0\<close>.
  The other fields are set as in MicroBitButton.cpp, lines 48-56.
\<close>

definition MicroBitButton_new :: "MicroBitButtonEventConfiguration \<Rightarrow> MicroBitButton" where
  "MicroBitButton_new eventConfiguration' =
     \<lparr> status = 0, downStartTime = 0, sigma = 0,
       eventConfiguration = eventConfiguration' \<rparr>"

definition setEventConfiguration ::
  "MicroBitButtonEventConfiguration \<Rightarrow> MicroBitButton \<Rightarrow> MicroBitButton" where
  "setEventConfiguration config b = b\<lparr>eventConfiguration := config\<rparr>"

definition isPressed :: "MicroBitButton \<Rightarrow> int" where
  "isPressed b = (if status b AND MICROBIT_BUTTON_STATE \<noteq> 0 then 1 else 0)"

text \<open>The two flags of \<^verbatim>\<open>status\<close>, as the conditions of the source test them.\<close>

definition pressed :: "MicroBitButton \<Rightarrow> bool" where
  "pressed b \<longleftrightarrow> status b AND MICROBIT_BUTTON_STATE \<noteq> 0"

definition holdTriggered :: "MicroBitButton \<Rightarrow> bool" where
  "holdTriggered b \<longleftrightarrow> status b AND MICROBIT_BUTTON_STATE_HOLD_TRIGGERED \<noteq> 0"

subsection \<open>The periodic callback\<close>

text \<open>
  \<^verbatim>\<open>systemTick\<close> (MicroBitButton.cpp, lines 84-139) is four statements in sequence; each
  is a function here, from the state before it to the state after it and the events it
  fires. The inputs of a tick are the reading of the pin (an \<^verbatim>\<open>int\<close>, 0 when the button
  is held down or the pad touched) and the time \<^verbatim>\<open>now\<close>.
\<close>

text \<open>Lines 92-101: the integrator.\<close>

definition integrate :: "int \<Rightarrow> MicroBitButton \<Rightarrow> MicroBitButton" where
  "integrate pin b =
     (if pin = 0
      then (if sigma b < MICROBIT_BUTTON_SIGMA_MAX then b\<lparr>sigma := sigma b + 1\<rparr> else b)
      else (if sigma b > MICROBIT_BUTTON_SIGMA_MIN then b\<lparr>sigma := sigma b - 1\<rparr> else b))"

text \<open>Lines 104-112: the off-to-on change.\<close>

definition press_edge :: "time \<Rightarrow> MicroBitButton \<Rightarrow> MicroBitButton \<times> event list" where
  "press_edge now b =
     (if sigma b > MICROBIT_BUTTON_SIGMA_THRESH_HI \<and> \<not> (status b AND MICROBIT_BUTTON_STATE \<noteq> 0)
      then (b\<lparr>status := status b OR MICROBIT_BUTTON_STATE, downStartTime := now\<rparr>,
            [MICROBIT_BUTTON_EVT_DOWN])
      else (b, []))"

text \<open>Lines 115-128: the on-to-off change, and the click it may stand for.\<close>

definition release_edge :: "time \<Rightarrow> MicroBitButton \<Rightarrow> MicroBitButton \<times> event list" where
  "release_edge now b =
     (if sigma b < MICROBIT_BUTTON_SIGMA_THRESH_LO \<and> status b AND MICROBIT_BUTTON_STATE \<noteq> 0
      then (b\<lparr>status := 0\<rparr>,
            MICROBIT_BUTTON_EVT_UP #
            (if eventConfiguration b = MICROBIT_BUTTON_ALL_EVENTS
             then (if now - downStartTime b \<ge> MICROBIT_BUTTON_LONG_CLICK_TIME
                   then [MICROBIT_BUTTON_EVT_LONG_CLICK]
                   else [MICROBIT_BUTTON_EVT_CLICK])
             else []))
      else (b, []))"

text \<open>Lines 131-138: the hold.\<close>

definition hold_check :: "time \<Rightarrow> MicroBitButton \<Rightarrow> MicroBitButton \<times> event list" where
  "hold_check now b =
     (if status b AND MICROBIT_BUTTON_STATE \<noteq> 0
         \<and> \<not> (status b AND MICROBIT_BUTTON_STATE_HOLD_TRIGGERED \<noteq> 0)
         \<and> now - downStartTime b \<ge> MICROBIT_BUTTON_HOLD_TIME
      then (b\<lparr>status := status b OR MICROBIT_BUTTON_STATE_HOLD_TRIGGERED\<rparr>,
            [MICROBIT_BUTTON_EVT_HOLD])
      else (b, []))"

text \<open>
  Modelled from the spec: \<^verbatim>\<open>system_timer_current_time()\<close> is declared in
  MicroBitSystemTimer.h, which is not among the sources. As in the spec's
  \<^verbatim>\<open>onTick(rawAsserted, now)\<close>, a tick has one time \<^verbatim>\<open>now\<close>, which every call of the
  timer within that tick returns, at the type of \<^verbatim>\<open>downStartTime\<close>.
\<close>

definition systemTick :: "int \<Rightarrow> time \<Rightarrow> MicroBitButton \<Rightarrow> MicroBitButton \<times> event list" where
  "systemTick pin now b =
     (let b1 = integrate pin b;
          (b2, e2) = press_edge now b1;
          (b3, e3) = release_edge now b2;
          (b4, e4) = hold_check now b3
      in (b4, e2 @ e3 @ e4))"

subsection \<open>Sequences of calls\<close>

text \<open>
  Between construction and destruction a button receives ticks from the system timer
  and, from the application, changes of its event configuration.
\<close>

datatype call =
    Tick int time
  | SetEventConfiguration MicroBitButtonEventConfiguration

fun exec :: "call \<Rightarrow> MicroBitButton \<Rightarrow> MicroBitButton \<times> event list" where
  "exec (Tick pin now) b = systemTick pin now b"
| "exec (SetEventConfiguration config) b = (setEventConfiguration config b, [])"

text \<open>The state after a sequence of calls, and the events of each call in turn.\<close>

fun run :: "call list \<Rightarrow> MicroBitButton \<Rightarrow> MicroBitButton" where
  "run [] b = b"
| "run (c # cs) b = run cs (fst (exec c b))"

fun trace :: "call list \<Rightarrow> MicroBitButton \<Rightarrow> event list list" where
  "trace [] b = []"
| "trace (c # cs) b = snd (exec c b) # trace cs (fst (exec c b))"

text \<open>
  The system timer calls \<^verbatim>\<open>systemTick\<close> at a fixed period: \<open>ticks pin period t n\<close> is
  \<open>n\<close> ticks in a row that read \<open>pin\<close>, the first at time \<open>t\<close> and each \<open>period\<close>
  after the one before.
\<close>

fun ticks :: "int \<Rightarrow> time \<Rightarrow> time \<Rightarrow> nat \<Rightarrow> call list" where
  "ticks pin period t 0 = []"
| "ticks pin period t (Suc n) = Tick pin t # ticks pin period (t + period) n"


section \<open>Properties\<close>

subsection \<open>Auxiliary facts\<close>

lemmas consts_defs =
  MICROBIT_BUTTON_LONG_CLICK_TIME_def MICROBIT_BUTTON_HOLD_TIME_def
  MICROBIT_BUTTON_STATE_def MICROBIT_BUTTON_STATE_HOLD_TRIGGERED_def
  MICROBIT_BUTTON_SIGMA_MIN_def MICROBIT_BUTTON_SIGMA_MAX_def
  MICROBIT_BUTTON_SIGMA_THRESH_HI_def MICROBIT_BUTTON_SIGMA_THRESH_LO_def

lemmas stage_defs = press_edge_def release_edge_def hold_check_def

text \<open>Setting one flag of \<^verbatim>\<open>status\<close> sets it and leaves the other alone.\<close>

lemma or1_and1: "(s OR 1) AND (1::8 word) \<noteq> 0"
  by (simp add: word_ao_dist)

lemma or2_and1: "(s OR 2) AND (1::8 word) = s AND 1"
  by (simp add: word_ao_dist)

lemma or1_and2: "(s OR 1) AND (2::8 word) = s AND 2"
  by (simp add: word_ao_dist)

lemma or2_and2: "(s OR 2) AND (2::8 word) \<noteq> 0"
  by (simp add: word_ao_dist)

lemma hi_lo_exclusive: "(8::8 word) < s \<Longrightarrow> \<not> s < 2"
  by (simp add: word_less_nat_alt)

text \<open>The integrator touches \<^verbatim>\<open>sigma\<close> only, and moves it by one step inside 0..12.\<close>

lemma integrate_frame [simp]:
  "status (integrate pin b) = status b"
  "downStartTime (integrate pin b) = downStartTime b"
  "eventConfiguration (integrate pin b) = eventConfiguration b"
  by (simp_all add: integrate_def)

lemma pressed_integrate [simp]: "pressed (integrate pin b) = pressed b"
  by (simp add: pressed_def)

lemma holdTriggered_integrate [simp]: "holdTriggered (integrate pin b) = holdTriggered b"
  by (simp add: holdTriggered_def)

lemma integrate_sigma_unat:
  "sigma b \<le> 12 \<Longrightarrow>
   unat (sigma (integrate pin b)) =
     (if pin = 0 then (if unat (sigma b) = 12 then 12 else unat (sigma b) + 1)
      else (if unat (sigma b) = 0 then 0 else unat (sigma b) - 1))"
  unfolding integrate_def MICROBIT_BUTTON_SIGMA_MAX_def MICROBIT_BUTTON_SIGMA_MIN_def
  by (auto simp: word_le_nat_alt word_less_nat_alt unat_word_ariths unat_minus_one
      unat_eq_zero word_greater_zero_iff)

lemma integrate_sigma_le: "sigma b \<le> 12 \<Longrightarrow> sigma (integrate pin b) \<le> 12"
  unfolding integrate_def MICROBIT_BUTTON_SIGMA_MAX_def MICROBIT_BUTTON_SIGMA_MIN_def
  by (auto simp: word_le_nat_alt word_less_nat_alt unat_word_ariths unat_sub)

text \<open>
  One tick, field by field, in terms of the state before it and of the integrator's new
  value.
\<close>

lemma systemTick_sigma: "sigma (fst (systemTick pin now b)) = sigma (integrate pin b)"
  by (simp add: systemTick_def stage_defs Let_def split: prod.splits)

lemma systemTick_eventConfiguration:
  "eventConfiguration (fst (systemTick pin now b)) = eventConfiguration b"
  by (simp add: systemTick_def stage_defs Let_def split: prod.splits)

lemma systemTick_downStartTime:
  "downStartTime (fst (systemTick pin now b)) =
     (if sigma (integrate pin b) > 8 \<and> \<not> pressed b then now else downStartTime b)"
  by (simp add: systemTick_def stage_defs Let_def pressed_def consts_defs split: prod.splits)

lemma systemTick_pressed:
  "pressed (fst (systemTick pin now b)) =
     (if sigma (integrate pin b) > 8 then True
      else if sigma (integrate pin b) < 2 then False
      else pressed b)"
  using hi_lo_exclusive [of "sigma (integrate pin b)"]
  by (auto simp add: systemTick_def stage_defs Let_def pressed_def consts_defs
      or1_and1 or2_and1 split: prod.splits)

lemma systemTick_holdTriggered:
  "holdTriggered (fst (systemTick pin now b)) =
     (if sigma (integrate pin b) < 2 \<and> pressed b then False
      else holdTriggered b \<or> (pressed b \<and> now - downStartTime b \<ge> 1500))"
  using hi_lo_exclusive [of "sigma (integrate pin b)"]
  by (auto simp add: systemTick_def stage_defs Let_def pressed_def holdTriggered_def consts_defs
      or1_and1 or2_and1 or1_and2 or2_and2 split: prod.splits)

lemma systemTick_events:
  "snd (systemTick pin now b) =
     (if sigma (integrate pin b) > 8 \<and> \<not> pressed b then [MICROBIT_BUTTON_EVT_DOWN] else []) @
     (if sigma (integrate pin b) < 2 \<and> pressed b
      then MICROBIT_BUTTON_EVT_UP #
           (if eventConfiguration b = MICROBIT_BUTTON_ALL_EVENTS
            then (if now - downStartTime b \<ge> 1000
                  then [MICROBIT_BUTTON_EVT_LONG_CLICK] else [MICROBIT_BUTTON_EVT_CLICK])
            else [])
      else []) @
     (if pressed b \<and> \<not> holdTriggered b \<and> \<not> sigma (integrate pin b) < 2
          \<and> now - downStartTime b \<ge> 1500
      then [MICROBIT_BUTTON_EVT_HOLD] else [])"
  using hi_lo_exclusive [of "sigma (integrate pin b)"]
  by (simp add: systemTick_def stage_defs Let_def pressed_def holdTriggered_def consts_defs
      or1_and1 or2_and1 or1_and2 split: prod.splits)

lemma setEventConfiguration_frame [simp]:
  "status (setEventConfiguration config b) = status b"
  "downStartTime (setEventConfiguration config b) = downStartTime b"
  "sigma (setEventConfiguration config b) = sigma b"
  "eventConfiguration (setEventConfiguration config b) = config"
  by (simp_all add: setEventConfiguration_def)

lemma pressed_setEventConfiguration [simp]:
  "pressed (setEventConfiguration config b) = pressed b"
  by (simp add: pressed_def)

lemma holdTriggered_setEventConfiguration [simp]:
  "holdTriggered (setEventConfiguration config b) = holdTriggered b"
  by (simp add: holdTriggered_def)

lemma integrate_setEventConfiguration [simp]:
  "sigma (integrate pin (setEventConfiguration config b)) = sigma (integrate pin b)"
  by (simp add: integrate_def)

lemma isPressed_pressed: "isPressed b = (if pressed b then 1 else 0)"
  by (simp add: isPressed_def pressed_def)

lemma long_click_le_hold: "(1500::32 word) \<le> d \<Longrightarrow> 1000 \<le> d"
  by (simp add: word_le_nat_alt)

text \<open>Evaluating the model on given inputs.\<close>

lemma ticks_numeral:
  "ticks pin period t (numeral k) = Tick pin t # ticks pin period (t + period) (pred_numeral k)"
  by (simp add: numeral_eq_Suc)

lemmas eval_defs =
  systemTick_def integrate_def stage_defs consts_defs MicroBitButton_new_def Let_def
  pressed_def holdTriggered_def setEventConfiguration_def isPressed_def ticks_numeral

text \<open>The bound on \<^verbatim>\<open>sigma\<close> is kept by every call, hence by every sequence of calls.\<close>

lemma exec_sigma_le: "sigma b \<le> 12 \<Longrightarrow> sigma (fst (exec c b)) \<le> 12"
  by (cases c) (simp_all add: systemTick_sigma integrate_sigma_le)

lemma run_sigma_le: "sigma b \<le> 12 \<Longrightarrow> sigma (run cs b) \<le> 12"
  by (induction cs arbitrary: b) (simp_all add: exec_sigma_le)

lemma new_sigma: "sigma (MicroBitButton_new cfg) = 0"
  by (simp add: MicroBitButton_new_def)

lemma new_pressed: "\<not> pressed (MicroBitButton_new cfg)"
  by (simp add: MicroBitButton_new_def pressed_def)

text \<open>
  Outside the band between the two thresholds the flag follows the integrator: after
  any tick, and so in every state reached from a new button.
\<close>

lemma systemTick_agrees:
  "(8 < sigma (fst (systemTick pin now b)) \<longrightarrow> pressed (fst (systemTick pin now b)))
   \<and> (sigma (fst (systemTick pin now b)) < 2 \<longrightarrow> \<not> pressed (fst (systemTick pin now b)))"
  using hi_lo_exclusive [of "sigma (integrate pin b)"]
  by (simp add: systemTick_pressed systemTick_sigma)

lemma exec_agrees:
  "(8 < sigma b \<longrightarrow> pressed b) \<and> (sigma b < 2 \<longrightarrow> \<not> pressed b) \<Longrightarrow>
   (8 < sigma (fst (exec c b)) \<longrightarrow> pressed (fst (exec c b)))
   \<and> (sigma (fst (exec c b)) < 2 \<longrightarrow> \<not> pressed (fst (exec c b)))"
proof (cases c)
  case (Tick pin now)
  show ?thesis unfolding Tick exec.simps by (rule systemTick_agrees)
next
  case (SetEventConfiguration config)
  assume "(8 < sigma b \<longrightarrow> pressed b) \<and> (sigma b < 2 \<longrightarrow> \<not> pressed b)"
  then show ?thesis using SetEventConfiguration by simp
qed

lemma run_agrees:
  "(8 < sigma b \<longrightarrow> pressed b) \<and> (sigma b < 2 \<longrightarrow> \<not> pressed b) \<Longrightarrow>
   (8 < sigma (run cs b) \<longrightarrow> pressed (run cs b))
   \<and> (sigma (run cs b) < 2 \<longrightarrow> \<not> pressed (run cs b))"
proof (induction cs arbitrary: b)
  case Nil
  then show ?case by simp
next
  case (Cons c cs)
  from Cons.prems have "(8 < sigma (fst (exec c b)) \<longrightarrow> pressed (fst (exec c b)))
     \<and> (sigma (fst (exec c b)) < 2 \<longrightarrow> \<not> pressed (fst (exec c b)))"
    by (rule exec_agrees)
  then show ?case unfolding run.simps by (rule Cons.IH)
qed

lemma new_agrees:
  "(8 < sigma (MicroBitButton_new cfg) \<longrightarrow> pressed (MicroBitButton_new cfg))
   \<and> (sigma (MicroBitButton_new cfg) < 2 \<longrightarrow> \<not> pressed (MicroBitButton_new cfg))"
  by (simp add: new_pressed new_sigma)

text \<open>
  Once the hold flag is set, no hold is raised before a release; so a stretch of calls
  without a release raises at most one.
\<close>

lemma hold_blocked:
  "holdTriggered b \<Longrightarrow> MICROBIT_BUTTON_EVT_UP \<notin> set (concat (trace cs b)) \<Longrightarrow>
   MICROBIT_BUTTON_EVT_HOLD \<notin> set (concat (trace cs b))"
proof (induction cs arbitrary: b)
  case Nil
  show ?case by simp
next
  case (Cons c cs)
  show ?case
  proof (cases c)
    case (Tick pin now)
    have no_up: "MICROBIT_BUTTON_EVT_UP \<notin> set (snd (systemTick pin now b))"
      and rest: "MICROBIT_BUTTON_EVT_UP \<notin> set (concat (trace cs (fst (systemTick pin now b))))"
      using Cons.prems(2) Tick by simp_all
    have "holdTriggered (fst (systemTick pin now b))"
      using Cons.prems(1) no_up
      by (auto simp add: systemTick_holdTriggered systemTick_events split: if_splits)
    then have "MICROBIT_BUTTON_EVT_HOLD \<notin> set (concat (trace cs (fst (systemTick pin now b))))"
      using rest by (rule Cons.IH)
    moreover have "MICROBIT_BUTTON_EVT_HOLD \<notin> set (snd (systemTick pin now b))"
      using Cons.prems(1) by (simp add: systemTick_events)
    ultimately show ?thesis using Tick by simp
  next
    case (SetEventConfiguration config)
    have "MICROBIT_BUTTON_EVT_HOLD \<notin> set (concat (trace cs (setEventConfiguration config b)))"
      using Cons.prems SetEventConfiguration by (intro Cons.IH) simp_all
    then show ?thesis using SetEventConfiguration by simp
  qed
qed

lemma hold_at_most_once:
  "MICROBIT_BUTTON_EVT_UP \<notin> set (concat (trace cs b)) \<Longrightarrow>
   count_list (concat (trace cs b)) MICROBIT_BUTTON_EVT_HOLD \<le> 1"
proof (induction cs arbitrary: b)
  case Nil
  show ?case by simp
next
  case (Cons c cs)
  show ?case
  proof (cases c)
    case (Tick pin now)
    let ?b' = "fst (systemTick pin now b)" and ?evs = "snd (systemTick pin now b)"
    have no_up: "MICROBIT_BUTTON_EVT_UP \<notin> set ?evs"
      and rest: "MICROBIT_BUTTON_EVT_UP \<notin> set (concat (trace cs ?b'))"
      using Cons.prems Tick by simp_all
    show ?thesis
    proof (cases "MICROBIT_BUTTON_EVT_HOLD \<in> set ?evs")
      case True
      then have one: "count_list ?evs MICROBIT_BUTTON_EVT_HOLD = 1"
        by (auto simp add: systemTick_events split: if_splits)
      have "holdTriggered ?b'"
        using True no_up
        by (auto simp add: systemTick_holdTriggered systemTick_events split: if_splits)
      then have "MICROBIT_BUTTON_EVT_HOLD \<notin> set (concat (trace cs ?b'))"
        using rest by (rule hold_blocked)
      then have "count_list (concat (trace cs ?b')) MICROBIT_BUTTON_EVT_HOLD = 0"
        by (simp add: count_list_0_iff)
      with one show ?thesis using Tick by simp
    next
      case False
      then have "count_list ?evs MICROBIT_BUTTON_EVT_HOLD = 0"
        by (simp add: count_list_0_iff)
      moreover have "count_list (concat (trace cs ?b')) MICROBIT_BUTTON_EVT_HOLD \<le> 1"
        using rest by (rule Cons.IH)
      ultimately show ?thesis using Tick by simp
    qed
  next
    case (SetEventConfiguration config)
    have "count_list (concat (trace cs (setEventConfiguration config b)))
            MICROBIT_BUTTON_EVT_HOLD \<le> 1"
      using Cons.prems SetEventConfiguration by (intro Cons.IH) simp
    then show ?thesis using SetEventConfiguration by simp
  qed
qed

text \<open>A button in the simple configuration stays in it until it is set to the other.\<close>

lemma exec_stays_simple:
  "eventConfiguration b = MICROBIT_BUTTON_SIMPLE_EVENTS \<Longrightarrow>
   c \<noteq> SetEventConfiguration MICROBIT_BUTTON_ALL_EVENTS \<Longrightarrow>
   eventConfiguration (fst (exec c b)) = MICROBIT_BUTTON_SIMPLE_EVENTS"
proof (cases c)
  case (Tick pin now)
  assume "eventConfiguration b = MICROBIT_BUTTON_SIMPLE_EVENTS"
  then show ?thesis using Tick by (simp add: systemTick_eventConfiguration)
next
  case (SetEventConfiguration config)
  assume "c \<noteq> SetEventConfiguration MICROBIT_BUTTON_ALL_EVENTS"
  then show ?thesis using SetEventConfiguration by (cases config) simp_all
qed

lemma exec_simple_events:
  "eventConfiguration b = MICROBIT_BUTTON_SIMPLE_EVENTS \<Longrightarrow>
   set (snd (exec c b)) \<subseteq>
     {MICROBIT_BUTTON_EVT_DOWN, MICROBIT_BUTTON_EVT_UP, MICROBIT_BUTTON_EVT_HOLD}"
  by (cases c) (auto simp add: systemTick_events split: if_splits)

section \<open>The claims\<close>

subsection \<open>The integrator\<close>

text \<open>
  C1. From the initial state, after any sequence of calls the integrator \<^verbatim>\<open>sigma\<close> lies
  between \<^verbatim>\<open>MICROBIT_BUTTON_SIGMA_MIN\<close> = 0 and \<^verbatim>\<open>MICROBIT_BUTTON_SIGMA_MAX\<close> = 12, and
  the next tick moves it by one: up when the pin reads 0 (input asserted) unless it is
  12 already, down when the pin reads anything else unless it is 0 already.
\<close>

theorem integrator_clamped:
  "(let b = run cs (MicroBitButton_new cfg) in
      unat MICROBIT_BUTTON_SIGMA_MIN \<le> unat (sigma b)
    \<and> unat (sigma b) \<le> unat MICROBIT_BUTTON_SIGMA_MAX
    \<and> unat (sigma (fst (systemTick pin now b))) =
        (if pin = 0
         then (if unat (sigma b) = 12 then 12 else unat (sigma b) + 1)
         else (if unat (sigma b) = 0 then 0 else unat (sigma b) - 1)))"
proof -
  define b where "b = run cs (MicroBitButton_new cfg)"
  have le: "sigma b \<le> 12"
    unfolding b_def by (rule run_sigma_le) (simp add: new_sigma)
  then have "unat (sigma b) \<le> 12"
    by (simp add: word_le_nat_alt)
  moreover have "unat (sigma (fst (systemTick pin now b))) =
           (if pin = 0
            then (if unat (sigma b) = 12 then 12 else unat (sigma b) + 1)
            else (if unat (sigma b) = 0 then 0 else unat (sigma b) - 1))"
    by (simp only: systemTick_sigma integrate_sigma_unat [OF le])
  ultimately show ?thesis
    unfolding Let_def b_def [symmetric]
    by (simp add: MICROBIT_BUTTON_SIGMA_MIN_def MICROBIT_BUTTON_SIGMA_MAX_def)
qed

theorem integrator_clamped_witness:
  "unat (sigma (run (ticks 0 6 0 20) (MicroBitButton_new MICROBIT_BUTTON_ALL_EVENTS))) = 12
   \<and> unat (sigma (fst (systemTick 0 120
        (run (ticks 0 6 0 20) (MicroBitButton_new MICROBIT_BUTTON_ALL_EVENTS))))) = 12
   \<and> unat (sigma (fst (systemTick 1 120
        (run (ticks 0 6 0 20) (MicroBitButton_new MICROBIT_BUTTON_ALL_EVENTS))))) = 11
   \<and> unat (sigma (run [Tick 0 0, Tick 1 6] (MicroBitButton_new MICROBIT_BUTTON_ALL_EVENTS))) = 0
   \<and> unat (sigma (fst (systemTick 1 12
        (run [Tick 0 0, Tick 1 6] (MicroBitButton_new MICROBIT_BUTTON_ALL_EVENTS))))) = 0
   \<and> unat (sigma (fst (systemTick 0 12
        (run [Tick 0 0, Tick 1 6] (MicroBitButton_new MICROBIT_BUTTON_ALL_EVENTS))))) = 1"
  using integrator_clamped [where cs = "ticks 0 6 0 20" and cfg = MICROBIT_BUTTON_ALL_EVENTS
      and pin = 0 and now = 120]
    integrator_clamped [where cs = "ticks 0 6 0 20" and cfg = MICROBIT_BUTTON_ALL_EVENTS
      and pin = 1 and now = 120]
    integrator_clamped [where cs = "[Tick 0 0, Tick 1 6]" and cfg = MICROBIT_BUTTON_ALL_EVENTS
      and pin = 1 and now = 12]
    integrator_clamped [where cs = "[Tick 0 0, Tick 1 6]" and cfg = MICROBIT_BUTTON_ALL_EVENTS
      and pin = 0 and now = 12]
  by (simp add: eval_defs)

subsection \<open>Hysteresis\<close>

text \<open>
  C2. In any state \<open>b\<close> reached from the initial state, a tick turns the pressed flag
  on only when the integrator goes from at most 8 to above 8, and turns it off only
  when the integrator goes from at least 2 to below 2; a tick that leaves the integrator
  inside the band from 2 to 8 leaves the flag as it was.
\<close>

theorem hysteresis:
  "(let b = run cs (MicroBitButton_new cfg); b' = fst (systemTick pin now b) in
      (\<not> pressed b \<and> pressed b' \<longrightarrow>
         sigma b \<le> MICROBIT_BUTTON_SIGMA_THRESH_HI \<and> sigma b' > MICROBIT_BUTTON_SIGMA_THRESH_HI)
    \<and> (pressed b \<and> \<not> pressed b' \<longrightarrow>
         sigma b \<ge> MICROBIT_BUTTON_SIGMA_THRESH_LO \<and> sigma b' < MICROBIT_BUTTON_SIGMA_THRESH_LO)
    \<and> (MICROBIT_BUTTON_SIGMA_THRESH_LO \<le> sigma b'
          \<and> sigma b' \<le> MICROBIT_BUTTON_SIGMA_THRESH_HI \<longrightarrow>
         pressed b' = pressed b))"
  using run_agrees [OF new_agrees, of cs cfg]
  by (auto simp add: Let_def systemTick_pressed systemTick_sigma consts_defs
      split: if_splits)

theorem hysteresis_witness:
  "(let b = run (ticks 0 6 0 8) (MicroBitButton_new MICROBIT_BUTTON_ALL_EVENTS);
        b' = fst (systemTick 0 48 b)
    in \<not> pressed b \<and> pressed b' \<and> sigma b = 8 \<and> sigma b' = 9)
   \<and> (let b = run (ticks 0 6 0 9 @ ticks 1 6 54 7)
                 (MicroBitButton_new MICROBIT_BUTTON_ALL_EVENTS);
        b' = fst (systemTick 1 96 b)
    in pressed b \<and> \<not> pressed b' \<and> sigma b = 2 \<and> sigma b' = 1)
   \<and> (let b = run (ticks 0 6 0 9 @ ticks 1 6 54 3)
                 (MicroBitButton_new MICROBIT_BUTTON_ALL_EVENTS);
        b' = fst (systemTick 1 72 b)
    in sigma b = 6 \<and> sigma b' = 5 \<and> pressed b \<and> pressed b')"
  using hysteresis [where cs = "ticks 0 6 0 8" and cfg = MICROBIT_BUTTON_ALL_EVENTS
      and pin = 0 and now = 48]
    hysteresis [where cs = "ticks 0 6 0 9 @ ticks 1 6 54 7"
      and cfg = MICROBIT_BUTTON_ALL_EVENTS and pin = 1 and now = 96]
    hysteresis [where cs = "ticks 0 6 0 9 @ ticks 1 6 54 3"
      and cfg = MICROBIT_BUTTON_ALL_EVENTS and pin = 1 and now = 72]
  by (simp add: eval_defs)

subsection \<open>The events of one tick\<close>

text \<open>
  C3. Whatever the event configuration, a tick raises \<^verbatim>\<open>MICROBIT_BUTTON_EVT_DOWN\<close> once
  if the integrator is above 8 after its update and the button was not pressed, and not
  at all otherwise; it raises \<^verbatim>\<open>MICROBIT_BUTTON_EVT_UP\<close> once if the integrator is below
  2 after its update and the button was pressed, and not at all otherwise. The tick
  that raises the down event sets the flag and records \<^verbatim>\<open>downStartTime = now\<close>.
\<close>

theorem down_up_events:
  "(let c = setEventConfiguration mode b;
        c' = fst (systemTick pin now c);
        evs = snd (systemTick pin now c)
    in count_list evs MICROBIT_BUTTON_EVT_DOWN =
         (if sigma c' > MICROBIT_BUTTON_SIGMA_THRESH_HI \<and> \<not> pressed b then 1 else 0)
     \<and> count_list evs MICROBIT_BUTTON_EVT_UP =
         (if sigma c' < MICROBIT_BUTTON_SIGMA_THRESH_LO \<and> pressed b then 1 else 0)
     \<and> (sigma c' > MICROBIT_BUTTON_SIGMA_THRESH_HI \<and> \<not> pressed b \<longrightarrow>
          pressed c' \<and> downStartTime c' = now))"
  by (simp add: Let_def systemTick_events systemTick_sigma systemTick_pressed
      systemTick_downStartTime consts_defs)

theorem down_up_events_witness:
  "(let c = setEventConfiguration MICROBIT_BUTTON_SIMPLE_EVENTS
              (run (ticks 0 6 0 8) (MicroBitButton_new MICROBIT_BUTTON_ALL_EVENTS));
        c' = fst (systemTick 0 48 c);
        evs = snd (systemTick 0 48 c)
    in sigma c' = 9 \<and> \<not> pressed c \<and> pressed c' \<and> downStartTime c' = 48
       \<and> evs = [MICROBIT_BUTTON_EVT_DOWN]
       \<and> count_list evs MICROBIT_BUTTON_EVT_DOWN = 1
       \<and> count_list evs MICROBIT_BUTTON_EVT_UP = 0)
   \<and> (let c = setEventConfiguration MICROBIT_BUTTON_SIMPLE_EVENTS
              (run (ticks 0 6 0 9 @ ticks 1 6 54 7)
                 (MicroBitButton_new MICROBIT_BUTTON_ALL_EVENTS));
        c' = fst (systemTick 1 96 c);
        evs = snd (systemTick 1 96 c)
    in sigma c' = 1 \<and> pressed c \<and> \<not> pressed c'
       \<and> evs = [MICROBIT_BUTTON_EVT_UP]
       \<and> count_list evs MICROBIT_BUTTON_EVT_DOWN = 0
       \<and> count_list evs MICROBIT_BUTTON_EVT_UP = 1)"
  using down_up_events [where mode = MICROBIT_BUTTON_SIMPLE_EVENTS
      and b = "run (ticks 0 6 0 8) (MicroBitButton_new MICROBIT_BUTTON_ALL_EVENTS)"
      and pin = 0 and now = 48]
    down_up_events [where mode = MICROBIT_BUTTON_SIMPLE_EVENTS
      and b = "run (ticks 0 6 0 9 @ ticks 1 6 54 7)
                 (MicroBitButton_new MICROBIT_BUTTON_ALL_EVENTS)"
      and pin = 1 and now = 96]
  by (simp add: eval_defs)

text \<open>
  C4. On a tick that releases the button (it was pressed and the integrator is below 2
  after its update) the events are \<^verbatim>\<open>MICROBIT_BUTTON_EVT_UP\<close> followed, in the
  configuration \<^verbatim>\<open>MICROBIT_BUTTON_ALL_EVENTS\<close> and in no other, by exactly one of
  \<^verbatim>\<open>MICROBIT_BUTTON_EVT_LONG_CLICK\<close>, when \<^verbatim>\<open>now - downStartTime\<close> is at least 1000, and
  \<^verbatim>\<open>MICROBIT_BUTTON_EVT_CLICK\<close> otherwise. So 1000 ms give a long click, 999 ms a click,
  and 1500 ms or more a long click again, whether or not a hold was raised before.
\<close>

theorem release_classification:
  "pressed b \<and> sigma (fst (systemTick pin now b)) < MICROBIT_BUTTON_SIGMA_THRESH_LO \<Longrightarrow>
   (let evs = snd (systemTick pin now b) in
      evs = MICROBIT_BUTTON_EVT_UP #
            (if eventConfiguration b = MICROBIT_BUTTON_ALL_EVENTS
             then (if now - downStartTime b \<ge> MICROBIT_BUTTON_LONG_CLICK_TIME
                   then [MICROBIT_BUTTON_EVT_LONG_CLICK]
                   else [MICROBIT_BUTTON_EVT_CLICK])
             else [])
    \<and> (MICROBIT_BUTTON_EVT_CLICK \<in> set evs \<or> MICROBIT_BUTTON_EVT_LONG_CLICK \<in> set evs)
        = (eventConfiguration b = MICROBIT_BUTTON_ALL_EVENTS)
    \<and> count_list evs MICROBIT_BUTTON_EVT_CLICK + count_list evs MICROBIT_BUTTON_EVT_LONG_CLICK
        = (if eventConfiguration b = MICROBIT_BUTTON_ALL_EVENTS then 1 else 0)
    \<and> (eventConfiguration b = MICROBIT_BUTTON_ALL_EVENTS \<and> now - downStartTime b = 1000 \<longrightarrow>
         evs = [MICROBIT_BUTTON_EVT_UP, MICROBIT_BUTTON_EVT_LONG_CLICK])
    \<and> (eventConfiguration b = MICROBIT_BUTTON_ALL_EVENTS \<and> now - downStartTime b = 999 \<longrightarrow>
         evs = [MICROBIT_BUTTON_EVT_UP, MICROBIT_BUTTON_EVT_CLICK])
    \<and> (eventConfiguration b = MICROBIT_BUTTON_ALL_EVENTS
          \<and> now - downStartTime b \<ge> MICROBIT_BUTTON_HOLD_TIME \<longrightarrow>
         evs = [MICROBIT_BUTTON_EVT_UP, MICROBIT_BUTTON_EVT_LONG_CLICK]))"
  using hi_lo_exclusive [of "sigma (integrate pin b)"]
  by (auto simp add: Let_def systemTick_events systemTick_sigma consts_defs
      dest: long_click_le_hold)

theorem release_classification_witness:
  "(let b = \<lparr> status = 1, downStartTime = 48, sigma = 2,
              eventConfiguration = MICROBIT_BUTTON_ALL_EVENTS \<rparr>
    in pressed b
     \<and> sigma (fst (systemTick 1 1048 b)) < MICROBIT_BUTTON_SIGMA_THRESH_LO
     \<and> snd (systemTick 1 1048 b) = [MICROBIT_BUTTON_EVT_UP, MICROBIT_BUTTON_EVT_LONG_CLICK]
     \<and> snd (systemTick 1 1047 b) = [MICROBIT_BUTTON_EVT_UP, MICROBIT_BUTTON_EVT_CLICK]
     \<and> snd (systemTick 1 1548 b) = [MICROBIT_BUTTON_EVT_UP, MICROBIT_BUTTON_EVT_LONG_CLICK]
     \<and> snd (systemTick 1 1048 (setEventConfiguration MICROBIT_BUTTON_SIMPLE_EVENTS b))
         = [MICROBIT_BUTTON_EVT_UP])"
proof -
  define b where "b = \<lparr> status = 1, downStartTime = 48, sigma = 2,
              eventConfiguration = MICROBIT_BUTTON_ALL_EVENTS \<rparr>"
  have edge: "pressed b \<and> sigma (fst (systemTick 1 t b)) < MICROBIT_BUTTON_SIGMA_THRESH_LO"
    for t
    by (simp add: b_def eval_defs)
  have edge': "pressed (setEventConfiguration MICROBIT_BUTTON_SIMPLE_EVENTS b)
     \<and> sigma (fst (systemTick 1 1048 (setEventConfiguration MICROBIT_BUTTON_SIMPLE_EVENTS b)))
         < MICROBIT_BUTTON_SIGMA_THRESH_LO"
    by (simp add: b_def eval_defs)
  show ?thesis
    using edge [of 1048]
      release_classification [OF edge [of 1048]]
      release_classification [OF edge [of 1047]]
      release_classification [OF edge [of 1548]]
      release_classification [OF edge']
    unfolding b_def [symmetric] Let_def
    by (simp add: b_def consts_defs)
qed

text \<open>
  C5. A tick raises \<^verbatim>\<open>MICROBIT_BUTTON_EVT_HOLD\<close> exactly when, at its last statement
  (after the integrator and the two edges of the same tick), the button is pressed, the
  hold flag is clear and \<^verbatim>\<open>now - downStartTime\<close> is at least 1500; in terms of the state
  before the tick: it was pressed with the hold flag clear and that much time gone, and
  this tick does not release it. The event configuration plays no part. The tick that
  raises the event raises it once and sets the hold flag, so no sequence of calls without
  a release raises it twice; the tick that releases the button clears both flags.
\<close>

theorem hold_once_per_press:
  "(let b3 = fst (release_edge now (fst (press_edge now (integrate pin b))));
        b' = fst (systemTick pin now b);
        evs = snd (systemTick pin now b)
    in (MICROBIT_BUTTON_EVT_HOLD \<in> set evs \<longleftrightarrow>
          pressed b3 \<and> \<not> holdTriggered b3
          \<and> now - downStartTime b3 \<ge> MICROBIT_BUTTON_HOLD_TIME)
     \<and> (MICROBIT_BUTTON_EVT_HOLD \<in> set evs \<longleftrightarrow>
          pressed b \<and> \<not> holdTriggered b
          \<and> now - downStartTime b \<ge> MICROBIT_BUTTON_HOLD_TIME
          \<and> \<not> sigma b' < MICROBIT_BUTTON_SIGMA_THRESH_LO)
     \<and> (MICROBIT_BUTTON_EVT_HOLD \<in> set evs \<longleftrightarrow>
          MICROBIT_BUTTON_EVT_HOLD \<in> set (snd (systemTick pin now (setEventConfiguration mode b))))
     \<and> (MICROBIT_BUTTON_EVT_HOLD \<in> set evs \<longrightarrow>
          holdTriggered b' \<and> count_list evs MICROBIT_BUTTON_EVT_HOLD = 1)
     \<and> (MICROBIT_BUTTON_EVT_UP \<in> set evs \<longrightarrow> \<not> pressed b' \<and> \<not> holdTriggered b'))
   \<and> (MICROBIT_BUTTON_EVT_UP \<notin> set (concat (trace cs b)) \<longrightarrow>
        count_list (concat (trace cs b)) MICROBIT_BUTTON_EVT_HOLD \<le> 1)"
proof -
  let ?b3 = "fst (release_edge now (fst (press_edge now (integrate pin b))))"
  let ?b' = "fst (systemTick pin now b)"
  let ?evs = "snd (systemTick pin now b)"
  have pre: "MICROBIT_BUTTON_EVT_HOLD \<in> set ?evs \<longleftrightarrow>
          pressed b \<and> \<not> holdTriggered b
          \<and> now - downStartTime b \<ge> MICROBIT_BUTTON_HOLD_TIME
          \<and> \<not> sigma ?b' < MICROBIT_BUTTON_SIGMA_THRESH_LO"
    by (auto simp add: systemTick_events systemTick_sigma consts_defs split: if_splits)
  have at_check: "pressed ?b3 \<and> \<not> holdTriggered ?b3
          \<and> now - downStartTime ?b3 \<ge> MICROBIT_BUTTON_HOLD_TIME \<longleftrightarrow>
          pressed b \<and> \<not> holdTriggered b
          \<and> now - downStartTime b \<ge> MICROBIT_BUTTON_HOLD_TIME
          \<and> \<not> sigma ?b' < MICROBIT_BUTTON_SIGMA_THRESH_LO"
    using hi_lo_exclusive [of "sigma (integrate pin b)"]
    by (auto simp add: stage_defs systemTick_sigma pressed_def holdTriggered_def consts_defs
        or1_and1 or1_and2)
  have mode: "MICROBIT_BUTTON_EVT_HOLD \<in> set ?evs \<longleftrightarrow>
          MICROBIT_BUTTON_EVT_HOLD \<in> set (snd (systemTick pin now (setEventConfiguration mode b)))"
    by (simp add: systemTick_events)
  have sets: "MICROBIT_BUTTON_EVT_HOLD \<in> set ?evs \<longrightarrow>
          holdTriggered ?b' \<and> count_list ?evs MICROBIT_BUTTON_EVT_HOLD = 1"
    by (auto simp add: systemTick_events systemTick_holdTriggered split: if_splits)
  have clears: "MICROBIT_BUTTON_EVT_UP \<in> set ?evs \<longrightarrow> \<not> pressed ?b' \<and> \<not> holdTriggered ?b'"
    using hi_lo_exclusive [of "sigma (integrate pin b)"]
    by (auto simp add: systemTick_events systemTick_holdTriggered systemTick_pressed
        split: if_splits)
  show ?thesis
    unfolding Let_def
    using pre at_check mode sets clears hold_at_most_once [of cs b] by blast
qed

theorem hold_once_per_press_witness:
  "(let b = \<lparr> status = 1, downStartTime = 48, sigma = 12,
              eventConfiguration = MICROBIT_BUTTON_SIMPLE_EVENTS \<rparr>
    in snd (systemTick 0 1548 b) = [MICROBIT_BUTTON_EVT_HOLD]
     \<and> holdTriggered (fst (systemTick 0 1548 b))
     \<and> snd (systemTick 0 1542 b) = []
     \<and> concat (trace (ticks 0 6 1548 50) b) = [MICROBIT_BUTTON_EVT_HOLD]
     \<and> count_list (concat (trace (ticks 0 6 1548 50) b)) MICROBIT_BUTTON_EVT_HOLD \<le> 1)
   \<and> (let b = \<lparr> status = 3, downStartTime = 48, sigma = 2,
              eventConfiguration = MICROBIT_BUTTON_SIMPLE_EVENTS \<rparr>
    in snd (systemTick 1 1700 b) = [MICROBIT_BUTTON_EVT_UP]
     \<and> \<not> pressed (fst (systemTick 1 1700 b))
     \<and> \<not> holdTriggered (fst (systemTick 1 1700 b)))
   \<and> concat (trace (ticks 0 6 0 259 @ ticks 1 6 1554 11 @ ticks 0 6 1620 258)
               (MicroBitButton_new MICROBIT_BUTTON_ALL_EVENTS))
      = [MICROBIT_BUTTON_EVT_DOWN, MICROBIT_BUTTON_EVT_HOLD,
         MICROBIT_BUTTON_EVT_UP, MICROBIT_BUTTON_EVT_LONG_CLICK,
         MICROBIT_BUTTON_EVT_DOWN, MICROBIT_BUTTON_EVT_HOLD]"
proof -
  define b where "b = \<lparr> status = 1, downStartTime = 48, sigma = 12,
              eventConfiguration = MICROBIT_BUTTON_SIMPLE_EVENTS \<rparr>"
  define c where "c = \<lparr> status = 3, downStartTime = 48, sigma = 2,
              eventConfiguration = MICROBIT_BUTTON_SIMPLE_EVENTS \<rparr>"
  have hold: "snd (systemTick 0 1548 b) = [MICROBIT_BUTTON_EVT_HOLD]"
    and early: "snd (systemTick 0 1542 b) = []"
    by (simp_all add: b_def eval_defs)
  have stretch: "concat (trace (ticks 0 6 1548 50) b) = [MICROBIT_BUTTON_EVT_HOLD]"
    by (simp add: b_def eval_defs)
  have up: "snd (systemTick 1 1700 c) = [MICROBIT_BUTTON_EVT_UP]"
    by (simp add: c_def eval_defs)
  have life: "concat (trace (ticks 0 6 0 259 @ ticks 1 6 1554 11 @ ticks 0 6 1620 258)
               (MicroBitButton_new MICROBIT_BUTTON_ALL_EVENTS))
      = [MICROBIT_BUTTON_EVT_DOWN, MICROBIT_BUTTON_EVT_HOLD,
         MICROBIT_BUTTON_EVT_UP, MICROBIT_BUTTON_EVT_LONG_CLICK,
         MICROBIT_BUTTON_EVT_DOWN, MICROBIT_BUTTON_EVT_HOLD]"
    by (simp add: eval_defs)
  have "holdTriggered (fst (systemTick 0 1548 b))
     \<and> count_list (concat (trace (ticks 0 6 1548 50) b)) MICROBIT_BUTTON_EVT_HOLD \<le> 1"
    using hold_once_per_press [where pin = 0 and now = 1548 and b = b
        and mode = MICROBIT_BUTTON_ALL_EVENTS and cs = "ticks 0 6 1548 50"]
    unfolding Let_def hold stretch by simp
  moreover have "\<not> pressed (fst (systemTick 1 1700 c))
     \<and> \<not> holdTriggered (fst (systemTick 1 1700 c))"
    using hold_once_per_press [where pin = 1 and now = 1700 and b = c
        and mode = MICROBIT_BUTTON_ALL_EVENTS and cs = "[]"]
    unfolding Let_def up by simp
  ultimately show ?thesis
    unfolding Let_def b_def [symmetric] c_def [symmetric]
    using hold early stretch up life by simp
qed

subsection \<open>The simple configuration\<close>

text \<open>
  C6, as the code has it. The claim that a button in the configuration
  \<^verbatim>\<open>MICROBIT_BUTTON_SIMPLE_EVENTS\<close> raises nothing but down and up events fails: the hold
  is raised in either configuration. A new button in the simple configuration, held
  down for 259 ticks of 6 ms, raises a down event and then a hold event.
\<close>

theorem simple_events_hold_counterexample:
  "concat (trace (ticks 0 6 0 259) (MicroBitButton_new MICROBIT_BUTTON_SIMPLE_EVENTS))
     = [MICROBIT_BUTTON_EVT_DOWN, MICROBIT_BUTTON_EVT_HOLD]
   \<and> eventConfiguration
        (run (ticks 0 6 0 259) (MicroBitButton_new MICROBIT_BUTTON_SIMPLE_EVENTS))
     = MICROBIT_BUTTON_SIMPLE_EVENTS
   \<and> \<not> set (concat (trace (ticks 0 6 0 259)
                       (MicroBitButton_new MICROBIT_BUTTON_SIMPLE_EVENTS)))
         \<subseteq> {MICROBIT_BUTTON_EVT_DOWN, MICROBIT_BUTTON_EVT_UP}"
proof -
  have events:
    "concat (trace (ticks 0 6 0 259) (MicroBitButton_new MICROBIT_BUTTON_SIMPLE_EVENTS))
       = [MICROBIT_BUTTON_EVT_DOWN, MICROBIT_BUTTON_EVT_HOLD]"
    by (simp add: eval_defs)
  have "eventConfiguration
        (run (ticks 0 6 0 259) (MicroBitButton_new MICROBIT_BUTTON_SIMPLE_EVENTS))
     = MICROBIT_BUTTON_SIMPLE_EVENTS"
    by (simp add: eval_defs)
  then show ?thesis unfolding events by simp
qed

text \<open>
  C6, amended. While the configuration is \<^verbatim>\<open>MICROBIT_BUTTON_SIMPLE_EVENTS\<close> (the button
  is in it and no call sets the other), every event raised is a down, an up or a hold
  event: no click and no long click is ever raised.
\<close>

theorem simple_events_only:
  "eventConfiguration b = MICROBIT_BUTTON_SIMPLE_EVENTS \<Longrightarrow>
   SetEventConfiguration MICROBIT_BUTTON_ALL_EVENTS \<notin> set cs \<Longrightarrow>
   set (concat (trace cs b)) \<subseteq>
     {MICROBIT_BUTTON_EVT_DOWN, MICROBIT_BUTTON_EVT_UP, MICROBIT_BUTTON_EVT_HOLD}"
proof (induction cs arbitrary: b)
  case Nil
  show ?case by simp
next
  case (Cons c cs)
  have "eventConfiguration (fst (exec c b)) = MICROBIT_BUTTON_SIMPLE_EVENTS"
    using Cons.prems by (intro exec_stays_simple) auto
  then have "set (concat (trace cs (fst (exec c b)))) \<subseteq>
     {MICROBIT_BUTTON_EVT_DOWN, MICROBIT_BUTTON_EVT_UP, MICROBIT_BUTTON_EVT_HOLD}"
    using Cons.prems by (intro Cons.IH) auto
  then show ?case
    using exec_simple_events [OF Cons.prems(1), of c] by simp
qed

theorem simple_events_only_witness:
  "eventConfiguration (MicroBitButton_new MICROBIT_BUTTON_SIMPLE_EVENTS)
     = MICROBIT_BUTTON_SIMPLE_EVENTS
   \<and> SetEventConfiguration MICROBIT_BUTTON_ALL_EVENTS
       \<notin> set (ticks 0 6 0 20 @ ticks 1 6 120 20)
   \<and> concat (trace (ticks 0 6 0 20 @ ticks 1 6 120 20)
               (MicroBitButton_new MICROBIT_BUTTON_SIMPLE_EVENTS))
       = [MICROBIT_BUTTON_EVT_DOWN, MICROBIT_BUTTON_EVT_UP]
   \<and> set (concat (trace (ticks 0 6 0 20 @ ticks 1 6 120 20)
               (MicroBitButton_new MICROBIT_BUTTON_SIMPLE_EVENTS)))
       \<subseteq> {MICROBIT_BUTTON_EVT_DOWN, MICROBIT_BUTTON_EVT_UP, MICROBIT_BUTTON_EVT_HOLD}"
proof -
  have simple: "eventConfiguration (MicroBitButton_new MICROBIT_BUTTON_SIMPLE_EVENTS)
     = MICROBIT_BUTTON_SIMPLE_EVENTS"
    by (simp add: MicroBitButton_new_def)
  have calls: "SetEventConfiguration MICROBIT_BUTTON_ALL_EVENTS
       \<notin> set (ticks 0 6 0 20 @ ticks 1 6 120 20)"
    by (simp add: ticks_numeral)
  have events: "concat (trace (ticks 0 6 0 20 @ ticks 1 6 120 20)
               (MicroBitButton_new MICROBIT_BUTTON_SIMPLE_EVENTS))
       = [MICROBIT_BUTTON_EVT_DOWN, MICROBIT_BUTTON_EVT_UP]"
    by (simp add: eval_defs)
  show ?thesis
    using simple calls events simple_events_only [OF simple calls] by simp
qed

subsection \<open>One tick, one edge\<close>

text \<open>
  C7. No tick raises both a down and an up event, and no tick raises a hold event
  together with either: when the down event is raised, \<^verbatim>\<open>downStartTime\<close> is \<^verbatim>\<open>now\<close> by
  the time the hold is tested, so the 1500 ms have not gone by; when the up event is
  raised, the pressed flag is already clear by then.
\<close>

theorem edges_and_hold_exclusive:
  "(let evs = snd (systemTick pin now b);
        b3 = fst (release_edge now (fst (press_edge now (integrate pin b))))
    in \<not> (MICROBIT_BUTTON_EVT_DOWN \<in> set evs \<and> MICROBIT_BUTTON_EVT_UP \<in> set evs)
     \<and> \<not> (MICROBIT_BUTTON_EVT_HOLD \<in> set evs \<and> MICROBIT_BUTTON_EVT_DOWN \<in> set evs)
     \<and> \<not> (MICROBIT_BUTTON_EVT_HOLD \<in> set evs \<and> MICROBIT_BUTTON_EVT_UP \<in> set evs)
     \<and> (MICROBIT_BUTTON_EVT_DOWN \<in> set evs \<longrightarrow>
          downStartTime b3 = now \<and> \<not> now - downStartTime b3 \<ge> MICROBIT_BUTTON_HOLD_TIME)
     \<and> (MICROBIT_BUTTON_EVT_UP \<in> set evs \<longrightarrow> \<not> pressed b3))"
  using hi_lo_exclusive [of "sigma (integrate pin b)"]
  by (auto simp add: Let_def systemTick_events stage_defs pressed_def consts_defs
      split: if_splits)

theorem edges_and_hold_exclusive_witness:
  "(let b = \<lparr> status = 0, downStartTime = 0, sigma = 8,
              eventConfiguration = MICROBIT_BUTTON_ALL_EVENTS \<rparr>;
        evs = snd (systemTick 0 5000 b)
    in evs = [MICROBIT_BUTTON_EVT_DOWN]
       \<and> downStartTime (fst (release_edge 5000 (fst (press_edge 5000 (integrate 0 b)))))
          = 5000)
   \<and> (let b = \<lparr> status = 1, downStartTime = 48, sigma = 2,
              eventConfiguration = MICROBIT_BUTTON_ALL_EVENTS \<rparr>;
        evs = snd (systemTick 1 5000 b)
    in evs = [MICROBIT_BUTTON_EVT_UP, MICROBIT_BUTTON_EVT_LONG_CLICK]
       \<and> \<not> pressed (fst (release_edge 5000 (fst (press_edge 5000 (integrate 1 b))))))"
proof -
  define b where "b = \<lparr> status = 0, downStartTime = 0, sigma = 8,
              eventConfiguration = MICROBIT_BUTTON_ALL_EVENTS \<rparr>"
  define c where "c = \<lparr> status = 1, downStartTime = 48, sigma = 2,
              eventConfiguration = MICROBIT_BUTTON_ALL_EVENTS \<rparr>"
  have down: "snd (systemTick 0 5000 b) = [MICROBIT_BUTTON_EVT_DOWN]"
    by (simp add: b_def eval_defs)
  have up: "snd (systemTick 1 5000 c)
      = [MICROBIT_BUTTON_EVT_UP, MICROBIT_BUTTON_EVT_LONG_CLICK]"
    by (simp add: c_def eval_defs)
  have "downStartTime (fst (release_edge 5000 (fst (press_edge 5000 (integrate 0 b)))))
          = 5000"
    using edges_and_hold_exclusive [where pin = 0 and now = 5000 and b = b]
    unfolding Let_def down by simp
  moreover have "\<not> pressed (fst (release_edge 5000 (fst (press_edge 5000 (integrate 1 c)))))"
    using edges_and_hold_exclusive [where pin = 1 and now = 5000 and b = c]
    unfolding Let_def up by simp
  ultimately show ?thesis
    unfolding Let_def b_def [symmetric] c_def [symmetric]
    using down up by simp
qed

subsection \<open>A press and a release\<close>

text \<open>
  C8. A new button in the configuration \<^verbatim>\<open>MICROBIT_BUTTON_ALL_EVENTS\<close> is ticked every
  6 ms from any time \<open>t0\<close>, 20 times with the input asserted and then 20 times with it
  deasserted. The 9th tick raises the down event, the integrator having gone from 8 to
  9; the integrator reaches 12 and comes back to 2 on the 30th tick; the 31st tick
  takes it to 1 and raises the up event and a click; no other tick raises anything, so
  no hold is raised.
\<close>

theorem press_and_release_scenario:
  "trace (ticks 0 6 t0 20 @ ticks 1 6 (t0 + 120) 20)
     (MicroBitButton_new MICROBIT_BUTTON_ALL_EVENTS)
   = replicate 8 [] @ [[MICROBIT_BUTTON_EVT_DOWN]] @ replicate 21 []
     @ [[MICROBIT_BUTTON_EVT_UP, MICROBIT_BUTTON_EVT_CLICK]] @ replicate 9 []
   \<and> sigma (run (ticks 0 6 t0 8) (MicroBitButton_new MICROBIT_BUTTON_ALL_EVENTS)) = 8
   \<and> sigma (run (ticks 0 6 t0 9) (MicroBitButton_new MICROBIT_BUTTON_ALL_EVENTS)) = 9
   \<and> sigma (run (ticks 0 6 t0 20) (MicroBitButton_new MICROBIT_BUTTON_ALL_EVENTS)) = 12
   \<and> sigma (run (ticks 0 6 t0 20 @ ticks 1 6 (t0 + 120) 10)
               (MicroBitButton_new MICROBIT_BUTTON_ALL_EVENTS)) = 2
   \<and> sigma (run (ticks 0 6 t0 20 @ ticks 1 6 (t0 + 120) 11)
               (MicroBitButton_new MICROBIT_BUTTON_ALL_EVENTS)) = 1
   \<and> sigma (run (ticks 0 6 t0 20 @ ticks 1 6 (t0 + 120) 20)
               (MicroBitButton_new MICROBIT_BUTTON_ALL_EVENTS)) = 0
   \<and> MICROBIT_BUTTON_EVT_HOLD
       \<notin> set (concat (trace (ticks 0 6 t0 20 @ ticks 1 6 (t0 + 120) 20)
                         (MicroBitButton_new MICROBIT_BUTTON_ALL_EVENTS)))"
proof -
  have expected: "replicate 8 [] @ [[MICROBIT_BUTTON_EVT_DOWN]] @ replicate 21 []
     @ [[MICROBIT_BUTTON_EVT_UP, MICROBIT_BUTTON_EVT_CLICK]] @ replicate 9 []
     = [[], [], [], [], [], [], [], [], [MICROBIT_BUTTON_EVT_DOWN], [], [], [],
        [], [], [], [], [], [], [], [], [], [], [], [], [], [], [], [], [], [],
        [MICROBIT_BUTTON_EVT_UP, MICROBIT_BUTTON_EVT_CLICK], [], [], [], [],
        [], [], [], [], []]"
    by (simp add: numeral_eq_Suc)
  have events: "trace (ticks 0 6 t0 20 @ ticks 1 6 (t0 + 120) 20)
     (MicroBitButton_new MICROBIT_BUTTON_ALL_EVENTS)
     = [[], [], [], [], [], [], [], [], [MICROBIT_BUTTON_EVT_DOWN], [], [], [],
        [], [], [], [], [], [], [], [], [], [], [], [], [], [], [], [], [], [],
        [MICROBIT_BUTTON_EVT_UP, MICROBIT_BUTTON_EVT_CLICK], [], [], [], [],
        [], [], [], [], []]"
    by (simp add: eval_defs)
  have "sigma (run (ticks 0 6 t0 8) (MicroBitButton_new MICROBIT_BUTTON_ALL_EVENTS)) = 8"
    and "sigma (run (ticks 0 6 t0 9) (MicroBitButton_new MICROBIT_BUTTON_ALL_EVENTS)) = 9"
    and "sigma (run (ticks 0 6 t0 20) (MicroBitButton_new MICROBIT_BUTTON_ALL_EVENTS)) = 12"
    and "sigma (run (ticks 0 6 t0 20 @ ticks 1 6 (t0 + 120) 10)
               (MicroBitButton_new MICROBIT_BUTTON_ALL_EVENTS)) = 2"
    and "sigma (run (ticks 0 6 t0 20 @ ticks 1 6 (t0 + 120) 11)
               (MicroBitButton_new MICROBIT_BUTTON_ALL_EVENTS)) = 1"
    and "sigma (run (ticks 0 6 t0 20 @ ticks 1 6 (t0 + 120) 20)
               (MicroBitButton_new MICROBIT_BUTTON_ALL_EVENTS)) = 0"
    by (simp_all add: eval_defs)
  moreover have "MICROBIT_BUTTON_EVT_HOLD
       \<notin> set (concat (trace (ticks 0 6 t0 20 @ ticks 1 6 (t0 + 120) 20)
                         (MicroBitButton_new MICROBIT_BUTTON_ALL_EVENTS)))"
    unfolding events by simp
  ultimately show ?thesis
    unfolding events expected by simp
qed

theorem press_and_release_scenario_witness:
  "concat (trace (ticks 0 6 0 20 @ ticks 1 6 120 20)
            (MicroBitButton_new MICROBIT_BUTTON_ALL_EVENTS))
   = [MICROBIT_BUTTON_EVT_DOWN, MICROBIT_BUTTON_EVT_UP, MICROBIT_BUTTON_EVT_CLICK]"
proof -
  have "trace (ticks 0 6 0 20 @ ticks 1 6 120 20)
            (MicroBitButton_new MICROBIT_BUTTON_ALL_EVENTS)
   = replicate 8 [] @ [[MICROBIT_BUTTON_EVT_DOWN]] @ replicate 21 []
     @ [[MICROBIT_BUTTON_EVT_UP, MICROBIT_BUTTON_EVT_CLICK]] @ replicate 9 []"
    using press_and_release_scenario [where ?t0.0 = 0] by simp
  then show ?thesis by simp
qed

subsection \<open>The flag between ticks\<close>

text \<open>
  C9. In every state reached from the initial state, and after a tick from any state
  whatever, it is never the case that the integrator is above 8 while \<^verbatim>\<open>isPressed\<close>
  returns 0, nor that it is below 2 while \<^verbatim>\<open>isPressed\<close> returns 1.
\<close>

theorem flag_never_lags:
  "(let c = run cs (MicroBitButton_new cfg) in
      \<not> (sigma c > MICROBIT_BUTTON_SIGMA_THRESH_HI \<and> isPressed c = 0)
    \<and> \<not> (sigma c < MICROBIT_BUTTON_SIGMA_THRESH_LO \<and> isPressed c = 1))
   \<and> (let b' = fst (systemTick pin now b) in
      \<not> (sigma b' > MICROBIT_BUTTON_SIGMA_THRESH_HI \<and> isPressed b' = 0)
    \<and> \<not> (sigma b' < MICROBIT_BUTTON_SIGMA_THRESH_LO \<and> isPressed b' = 1))"
  using run_agrees [OF new_agrees, of cs cfg] systemTick_agrees [of pin now b]
  by (simp add: Let_def isPressed_pressed consts_defs)

theorem flag_never_lags_witness:
  "(let c = run (ticks 0 6 0 9) (MicroBitButton_new MICROBIT_BUTTON_ALL_EVENTS) in
      sigma c = 9 \<and> isPressed c = 1)
   \<and> (let b' = fst (systemTick 1 96
                      \<lparr> status = 1, downStartTime = 48, sigma = 2,
                        eventConfiguration = MICROBIT_BUTTON_ALL_EVENTS \<rparr>) in
      sigma b' = 1 \<and> isPressed b' = 0)"
  using flag_never_lags [where cs = "ticks 0 6 0 9" and cfg = MICROBIT_BUTTON_ALL_EVENTS
      and pin = 1 and now = 96
      and b = "\<lparr> status = 1, downStartTime = 48, sigma = 2,
                 eventConfiguration = MICROBIT_BUTTON_ALL_EVENTS \<rparr>"]
  by (simp add: eval_defs)

subsection \<open>The time of the press\<close>

text \<open>
  C10. \<^verbatim>\<open>downStartTime\<close> is 0 in a new button. A tick sets it to \<^verbatim>\<open>now\<close> if it is a press
  edge (the integrator is above 8 after its update and the button was not pressed) and
  leaves it alone otherwise: so do the ticks that raise no down event, those that raise
  the up event and those that raise the hold event. \<^verbatim>\<open>setEventConfiguration\<close> leaves it
  alone; so it keeps its value over any sequence of calls that raises no down event.
\<close>

theorem downStartTime_frame:
  "downStartTime (MicroBitButton_new cfg) = 0
   \<and> (let b' = fst (systemTick pin now b); evs = snd (systemTick pin now b) in
        downStartTime b' =
          (if sigma b' > MICROBIT_BUTTON_SIGMA_THRESH_HI \<and> \<not> pressed b then now
           else downStartTime b)
      \<and> (MICROBIT_BUTTON_EVT_DOWN \<notin> set evs \<longrightarrow> downStartTime b' = downStartTime b)
      \<and> (MICROBIT_BUTTON_EVT_UP \<in> set evs \<longrightarrow> downStartTime b' = downStartTime b)
      \<and> (MICROBIT_BUTTON_EVT_HOLD \<in> set evs \<longrightarrow> downStartTime b' = downStartTime b))
   \<and> downStartTime (setEventConfiguration mode b) = downStartTime b
   \<and> (MICROBIT_BUTTON_EVT_DOWN \<notin> set (concat (trace cs b)) \<longrightarrow>
        downStartTime (run cs b) = downStartTime b)"
proof -
  have tick: "downStartTime (fst (systemTick pin now b)) = downStartTime b"
    if "MICROBIT_BUTTON_EVT_DOWN \<notin> set (snd (systemTick pin now b))" for pin now b
    using that by (auto simp add: systemTick_events systemTick_downStartTime split: if_splits)
  have seq: "MICROBIT_BUTTON_EVT_DOWN \<notin> set (concat (trace cs b)) \<Longrightarrow>
        downStartTime (run cs b) = downStartTime b" for b
  proof (induction cs arbitrary: b)
    case Nil
    show ?case by simp
  next
    case (Cons c cs)
    then have "downStartTime (run cs (fst (exec c b))) = downStartTime (fst (exec c b))"
      by simp
    moreover have "downStartTime (fst (exec c b)) = downStartTime b"
      using Cons.prems by (cases c) (simp_all add: tick)
    ultimately show ?case by simp
  qed
  show ?thesis
    using hi_lo_exclusive [of "sigma (integrate pin b)"] seq
    by (auto simp add: Let_def MicroBitButton_new_def systemTick_events systemTick_sigma
        systemTick_downStartTime consts_defs split: if_splits)
qed

theorem downStartTime_frame_witness:
  "(let b = \<lparr> status = 1, downStartTime = 48, sigma = 12,
              eventConfiguration = MICROBIT_BUTTON_ALL_EVENTS \<rparr> in
      snd (systemTick 0 1548 b) = [MICROBIT_BUTTON_EVT_HOLD]
    \<and> downStartTime (fst (systemTick 0 1548 b)) = 48
    \<and> concat (trace (ticks 1 6 1554 20) (fst (systemTick 0 1548 b)))
        = [MICROBIT_BUTTON_EVT_UP, MICROBIT_BUTTON_EVT_LONG_CLICK]
    \<and> downStartTime (run (ticks 1 6 1554 20) (fst (systemTick 0 1548 b))) = 48)
   \<and> (let b = \<lparr> status = 3, downStartTime = 48, sigma = 2,
              eventConfiguration = MICROBIT_BUTTON_ALL_EVENTS \<rparr> in
      snd (systemTick 1 1614 b) = [MICROBIT_BUTTON_EVT_UP, MICROBIT_BUTTON_EVT_LONG_CLICK]
    \<and> downStartTime (fst (systemTick 1 1614 b)) = 48)
   \<and> (let b = \<lparr> status = 0, downStartTime = 48, sigma = 8,
              eventConfiguration = MICROBIT_BUTTON_ALL_EVENTS \<rparr> in
      snd (systemTick 0 1700 b) = [MICROBIT_BUTTON_EVT_DOWN]
    \<and> downStartTime (fst (systemTick 0 1700 b)) = 1700)"
proof -
  define b where "b = \<lparr> status = 1, downStartTime = 48, sigma = 12,
              eventConfiguration = MICROBIT_BUTTON_ALL_EVENTS \<rparr>"
  define c where "c = \<lparr> status = 3, downStartTime = 48, sigma = 2,
              eventConfiguration = MICROBIT_BUTTON_ALL_EVENTS \<rparr>"
  define d where "d = \<lparr> status = 0, downStartTime = 48, sigma = 8,
              eventConfiguration = MICROBIT_BUTTON_ALL_EVENTS \<rparr>"
  have hold: "snd (systemTick 0 1548 b) = [MICROBIT_BUTTON_EVT_HOLD]"
    and b_time: "downStartTime b = 48"
    by (simp_all add: b_def eval_defs)
  have b': "fst (systemTick 0 1548 b) = b\<lparr>status := 3\<rparr>"
    by (simp add: b_def eval_defs)
  have later: "concat (trace (ticks 1 6 1554 20) (b\<lparr>status := 3\<rparr>))
        = [MICROBIT_BUTTON_EVT_UP, MICROBIT_BUTTON_EVT_LONG_CLICK]"
    by (simp add: b_def eval_defs)
  have up: "snd (systemTick 1 1614 c)
      = [MICROBIT_BUTTON_EVT_UP, MICROBIT_BUTTON_EVT_LONG_CLICK]"
    and c_time: "downStartTime c = 48"
    by (simp_all add: c_def eval_defs)
  have down: "snd (systemTick 0 1700 d) = [MICROBIT_BUTTON_EVT_DOWN]"
    and d_edge: "sigma (fst (systemTick 0 1700 d)) = 9" "\<not> pressed d"
    by (simp_all add: d_def eval_defs)
  have "MICROBIT_BUTTON_EVT_HOLD \<in> set (snd (systemTick 0 1548 b))"
    by (simp add: hold)
  with downStartTime_frame [where pin = 0 and now = 1548 and b = b]
  have 1: "downStartTime (fst (systemTick 0 1548 b)) = downStartTime b"
    unfolding Let_def by blast
  have "MICROBIT_BUTTON_EVT_DOWN \<notin> set (concat (trace (ticks 1 6 1554 20) (b\<lparr>status := 3\<rparr>)))"
    by (simp add: later)
  with downStartTime_frame [where b = "b\<lparr>status := 3\<rparr>" and cs = "ticks 1 6 1554 20"]
  have 2: "downStartTime (run (ticks 1 6 1554 20) (b\<lparr>status := 3\<rparr>))
      = downStartTime (b\<lparr>status := 3\<rparr>)"
    by blast
  have "MICROBIT_BUTTON_EVT_UP \<in> set (snd (systemTick 1 1614 c))"
    by (simp add: up)
  with downStartTime_frame [where pin = 1 and now = 1614 and b = c]
  have 3: "downStartTime (fst (systemTick 1 1614 c)) = downStartTime c"
    unfolding Let_def by blast
  have "sigma (fst (systemTick 0 1700 d)) > MICROBIT_BUTTON_SIGMA_THRESH_HI \<and> \<not> pressed d"
    by (simp add: d_edge consts_defs)
  with downStartTime_frame [where pin = 0 and now = 1700 and b = d]
  have 4: "downStartTime (fst (systemTick 0 1700 d)) = 1700"
    unfolding Let_def by presburger
  show ?thesis
    unfolding Let_def b_def [symmetric] c_def [symmetric] d_def [symmetric]
    using hold up down later 1 2 3 4 by (simp add: b' b_time c_time)
qed

end
